theory Spec2Isabelle
  imports Main "HOL-Library.Word"
begin

unbundle bit_operations_syntax

section \<open>Python and NumPy primitives used by the ROM class\<close>

text \<open>
  The iNES decoder is the class \<open>ROM\<close> of \<open>nes_py/_rom.py\<close>. Its file content is a
  NumPy array of \<open>uint8\<close>; everything else is a Python \<open>int\<close>, \<open>bool\<close> or \<open>str\<close>.
  Exceptions are values of \<open>py_error\<close>; a computation that may raise returns
  \<open>py_error + 'a\<close>, with \<open>Inl\<close> for the raised exception.
\<close>

type_synonym uint8 = "8 word"

datatype py_error = TypeError string | ValueError string | IndexError

definition bind_e :: "'e + 'a \<Rightarrow> ('a \<Rightarrow> 'e + 'b) \<Rightarrow> 'e + 'b" where
  "bind_e r f = (case r of Inl e \<Rightarrow> Inl e | Inr v \<Rightarrow> f v)"

text \<open>\<open>try: ... except IndexError: raise ValueError(msg)\<close>: only an IndexError is
  caught and replaced; a value or any other exception passes through.\<close>

definition except_IndexError :: "string \<Rightarrow> py_error + 'a \<Rightarrow> py_error + 'a" where
  "except_IndexError msg r =
     (case r of Inl IndexError \<Rightarrow> Inl (ValueError msg) | Inl e \<Rightarrow> Inl e | Inr v \<Rightarrow> Inr v)"

text \<open>Indexing \<open>a[i]\<close> with a constant \<open>i \<ge> 0\<close>, on an array or a string: an index
  past the end raises IndexError.\<close>

definition index_at :: "'a list \<Rightarrow> nat \<Rightarrow> py_error + 'a" where
  "index_at xs i = (if i < length xs then Inr (xs ! i) else Inl IndexError)"

text \<open>Slicing \<open>a[lo:hi]\<close> with integer bounds never raises: each bound is clamped to
  the length of the array (a negative bound counts from the end).\<close>

definition slice_bound :: "nat \<Rightarrow> int \<Rightarrow> nat" where
  "slice_bound n i = (if i < 0 then nat (max 0 (int n + i)) else min (nat i) n)"

definition py_slice :: "'a list \<Rightarrow> int \<Rightarrow> int \<Rightarrow> 'a list" where
  "py_slice xs lo hi =
     (let n = length xs; s = slice_bound n lo; e = slice_bound n hi
      in take (e - s) (drop s xs))"

text \<open>\<open>np.array_equal(a, b)\<close> for a \<open>uint8\<close> array and an integer array: the shapes
  are equal and so are the values, element by element.\<close>

definition array_equal :: "uint8 list \<Rightarrow> int list \<Rightarrow> bool" where
  "array_equal a b = (map uint a = b)"

text \<open>\<open>a.sum()\<close> on a \<open>uint8\<close> array accumulates in a 64-bit unsigned integer; on
  the at most five bytes summed here it cannot wrap.\<close>

definition np_sum :: "uint8 list \<Rightarrow> nat" where
  "np_sum a = sum_list (map unat a)"

text \<open>The format specification \<open>08b\<close>: the binary digits of the value, most
  significant first, padded with zeros on the left to at least eight characters.\<close>

definition bit_char :: "nat \<Rightarrow> char" where
  "bit_char d = (if d = 0 then CHR ''0'' else CHR ''1'')"

fun bin_str :: "nat \<Rightarrow> string" where
  "bin_str n = (if n < 2 then [bit_char n] else bin_str (n div 2) @ [bit_char (n mod 2)])"

declare bin_str.simps [simp del]

definition format_08b :: "uint8 \<Rightarrow> string" where
  "format_08b b = (let s = bin_str (unat b) in replicate (8 - length s) (CHR ''0'') @ s)"

text \<open>\<open>int(s, base)\<close> and \<open>int(s)\<close> on the digit strings the class passes: a string
  of decimal digits below the base. Anything else raises ValueError.\<close>

definition digit_val :: "char \<Rightarrow> nat option" where
  "digit_val c =
     (let k = (of_char c :: nat) in if 48 \<le> k \<and> k \<le> 57 then Some (k - 48) else None)"

fun parse_digits :: "nat \<Rightarrow> int \<Rightarrow> string \<Rightarrow> py_error + int" where
  "parse_digits base acc [] = Inr acc"
| "parse_digits base acc (c # cs) =
     (case digit_val c of
        None \<Rightarrow> Inl (ValueError ''invalid literal for int()'')
      | Some d \<Rightarrow>
          if d < base then parse_digits base (acc * int base + int d) cs
          else Inl (ValueError ''invalid literal for int()''))"

definition py_int :: "nat \<Rightarrow> string \<Rightarrow> py_error + int" where
  "py_int base s =
     (if s = [] then Inl (ValueError ''invalid literal for int()'')
      else parse_digits base 0 s)"

text \<open>
  \<open>k * x\<close> for a Python \<open>int\<close> \<open>k\<close> that fits a byte and a NumPy \<open>uint8\<close> scalar \<open>x\<close>.
  The result depends on the scalar promotion rule of the installed NumPy, which is not
  part of the repository: under the legacy value-based rule (NumPy 1) the product is
  computed in a 64-bit integer; under NEP 50 (NumPy 2) the Python \<open>int\<close> takes the type
  of the scalar and the product wraps modulo 256.
\<close>

datatype np_promotion = Legacy | NEP50

definition mul_int_uint8 :: "np_promotion \<Rightarrow> int \<Rightarrow> uint8 \<Rightarrow> int" where
  "mul_int_uint8 p k x =
     (case p of Legacy \<Rightarrow> k * uint x | NEP50 \<Rightarrow> uint ((word_of_int k :: uint8) * x))"

section \<open>The ROM class\<close>

record ROM =
  raw_data :: "uint8 list"

text \<open>The argument of the constructor is any Python value; the constructor only
  distinguishes a \<open>str\<close> from everything else. The file system maps the path of an
  existing file to its bytes.\<close>

datatype py_arg = Str string | NotStr

type_synonym file_system = "string \<rightharpoonup> uint8 list"

definition MAGIC :: "int list" where
  "MAGIC = [0x4E, 0x45, 0x53, 0x1A]"

subsection \<open>Header\<close>

definition header :: "ROM \<Rightarrow> uint8 list" where
  "header rom = take 16 (raw_data rom)"

definition magic :: "ROM \<Rightarrow> uint8 list" where
  "magic rom = take 4 (header rom)"

definition prg_rom_size :: "ROM \<Rightarrow> py_error + int" where
  "prg_rom_size rom = bind_e (index_at (header rom) 4) (\<lambda>b. Inr (16 * uint b))"

definition chr_rom_size :: "ROM \<Rightarrow> py_error + int" where
  "chr_rom_size rom = bind_e (index_at (header rom) 5) (\<lambda>b. Inr (8 * uint b))"

definition flags_6 :: "ROM \<Rightarrow> py_error + string" where
  "flags_6 rom = bind_e (index_at (header rom) 6) (\<lambda>b. Inr (format_08b b))"

definition flags_7 :: "ROM \<Rightarrow> py_error + string" where
  "flags_7 rom = bind_e (index_at (header rom) 7) (\<lambda>b. Inr (format_08b b))"

definition prg_ram_size :: "np_promotion \<Rightarrow> ROM \<Rightarrow> py_error + int" where
  "prg_ram_size p rom =
     bind_e (index_at (header rom) 8)
       (\<lambda>size. if size = 0 then Inr (8 * 1) else Inr (mul_int_uint8 p 8 size))"

definition flags_9 :: "ROM \<Rightarrow> py_error + string" where
  "flags_9 rom = bind_e (index_at (header rom) 9) (\<lambda>b. Inr (format_08b b))"

definition flags_10 :: "ROM \<Rightarrow> py_error + string" where
  "flags_10 rom = bind_e (index_at (header rom) 10) (\<lambda>b. Inr (format_08b b))"

definition zero_fill :: "ROM \<Rightarrow> nat" where
  "zero_fill rom = np_sum (drop 11 (header rom))"

subsection \<open>Construction\<close>

definition ROM_init :: "file_system \<Rightarrow> py_arg \<Rightarrow> py_error + ROM" where
  "ROM_init fs rom_path =
     (case rom_path of
        NotStr \<Rightarrow> Inl (TypeError ''rom_path must be of type: str.'')
      | Str path \<Rightarrow>
          (case fs path of
             None \<Rightarrow>
               Inl (ValueError (''rom_path points to non-existent file: '' @ path @ ''.''))
           | Some bytes \<Rightarrow>
               (let rom = \<lparr>raw_data = bytes\<rparr> in
                if \<not> array_equal (magic rom) MAGIC
                then Inl (ValueError ''ROM missing magic number in header.'')
                else if zero_fill rom \<noteq> 0
                then Inl (ValueError ''ROM header zero fill bytes are not zero.'')
                else Inr rom)))"

subsection \<open>Header flags\<close>

text \<open>A flag is one character of the rendered byte, read with \<open>bool(int(c))\<close>.\<close>

definition flag_at :: "string \<Rightarrow> nat \<Rightarrow> py_error + bool" where
  "flag_at s i =
     bind_e (index_at s i) (\<lambda>c. bind_e (py_int 10 [c]) (\<lambda>n. Inr (n \<noteq> 0)))"

definition mapper :: "ROM \<Rightarrow> py_error + int" where
  "mapper rom =
     bind_e (flags_7 rom) (\<lambda>f7. bind_e (flags_6 rom) (\<lambda>f6. py_int 2 (take 4 f7 @ take 4 f6)))"

definition is_ignore_mirroring :: "ROM \<Rightarrow> py_error + bool" where
  "is_ignore_mirroring rom = bind_e (flags_6 rom) (\<lambda>f. flag_at f 4)"

definition has_trainer :: "ROM \<Rightarrow> py_error + bool" where
  "has_trainer rom = bind_e (flags_6 rom) (\<lambda>f. flag_at f 5)"

definition has_battery_backed_ram :: "ROM \<Rightarrow> py_error + bool" where
  "has_battery_backed_ram rom = bind_e (flags_6 rom) (\<lambda>f. flag_at f 6)"

definition is_vertical_mirroring :: "ROM \<Rightarrow> py_error + bool" where
  "is_vertical_mirroring rom = bind_e (flags_6 rom) (\<lambda>f. flag_at f 7)"

definition has_play_choice_10 :: "ROM \<Rightarrow> py_error + bool" where
  "has_play_choice_10 rom = bind_e (flags_7 rom) (\<lambda>f. flag_at f 6)"

definition has_vs_unisystem :: "ROM \<Rightarrow> py_error + bool" where
  "has_vs_unisystem rom = bind_e (flags_7 rom) (\<lambda>f. flag_at f 7)"

definition is_pal :: "ROM \<Rightarrow> py_error + bool" where
  "is_pal rom = bind_e (flags_9 rom) (\<lambda>f. flag_at f 7)"

subsection \<open>Memory regions\<close>

definition trainer_rom_start :: "ROM \<Rightarrow> int" where
  "trainer_rom_start rom = 16"

definition trainer_rom_stop :: "ROM \<Rightarrow> py_error + int" where
  "trainer_rom_stop rom =
     bind_e (has_trainer rom) (\<lambda>t. if t then Inr (16 + 512) else Inr 16)"

definition trainer_rom :: "ROM \<Rightarrow> py_error + uint8 list" where
  "trainer_rom rom =
     bind_e (trainer_rom_stop rom)
       (\<lambda>stop. Inr (py_slice (raw_data rom) (trainer_rom_start rom) stop))"

definition prg_rom_start :: "ROM \<Rightarrow> py_error + int" where
  "prg_rom_start rom = trainer_rom_stop rom"

definition prg_rom_stop :: "ROM \<Rightarrow> py_error + int" where
  "prg_rom_stop rom =
     bind_e (prg_rom_start rom)
       (\<lambda>start. bind_e (prg_rom_size rom) (\<lambda>size. Inr (start + size * 2 ^ 10)))"

definition prg_rom :: "ROM \<Rightarrow> py_error + uint8 list" where
  "prg_rom rom =
     except_IndexError ''failed to read PRG-ROM on ROM.''
       (bind_e (prg_rom_start rom)
          (\<lambda>start. bind_e (prg_rom_stop rom)
             (\<lambda>stop. Inr (py_slice (raw_data rom) start stop))))"

definition chr_rom_start :: "ROM \<Rightarrow> py_error + int" where
  "chr_rom_start rom = bind_e (prg_rom_stop rom) (\<lambda>stop. Inr stop)"

definition chr_rom_stop :: "ROM \<Rightarrow> py_error + int" where
  "chr_rom_stop rom =
     bind_e (chr_rom_start rom)
       (\<lambda>start. bind_e (chr_rom_size rom) (\<lambda>size. Inr (start + size * 2 ^ 10)))"

definition chr_rom :: "ROM \<Rightarrow> py_error + uint8 list" where
  "chr_rom rom =
     except_IndexError ''failed to read CHR-ROM on ROM.''
       (bind_e (chr_rom_start rom)
          (\<lambda>start. bind_e (chr_rom_stop rom)
             (\<lambda>stop. Inr (py_slice (raw_data rom) start stop))))"

section \<open>Cartridge images used as concrete inputs\<close>

text \<open>A file system holding one file.\<close>

definition one_file :: "string \<Rightarrow> uint8 list \<Rightarrow> file_system" where
  "one_file path bytes = Map.empty(path \<mapsto> bytes)"

text \<open>The header \<open>4E 45 53 1A 02 01 00 ...\<close>: two units of PRG-ROM, one unit of CHR-ROM,
  every flag clear. Followed by 40960 bytes it is a complete image of 40976 bytes; cut to
  1000 bytes, or to 20016 bytes, it is a truncated file.\<close>

definition plain_header :: "uint8 list" where
  "plain_header = [0x4E, 0x45, 0x53, 0x1A, 2, 1, 0, 0, 0, 0, 0, 0, 0, 0, 0, 0]"

definition complete_image :: "uint8 list" where
  "complete_image = plain_header @ replicate 40960 0"

definition truncated_image :: "uint8 list" where
  "truncated_image = plain_header @ replicate 984 0"

definition half_image :: "uint8 list" where
  "half_image = plain_header @ replicate 20000 0"

text \<open>The same header with the trainer bit (bit 2 of byte 6) set, followed by the 512
  bytes of the trainer and both ROMs, or by 84 bytes only.\<close>

definition trainer_header :: "uint8 list" where
  "trainer_header = [0x4E, 0x45, 0x53, 0x1A, 2, 1, 4, 0, 0, 0, 0, 0, 0, 0, 0, 0]"

definition trainer_image :: "uint8 list" where
  "trainer_image = trainer_header @ replicate 41472 0"

definition truncated_trainer_image :: "uint8 list" where
  "truncated_trainer_image = trainer_header @ replicate 84 0"

text \<open>A header with mapper nibbles \<open>A\<close> (byte 7) and \<open>3\<close> (byte 6), four units of
  PRG-RAM and the PAL bit, and no ROM after it.\<close>

definition flags_header :: "uint8 list" where
  "flags_header = [0x4E, 0x45, 0x53, 0x1A, 0, 0, 0x3C, 0xA7, 4, 1, 0, 0, 0, 0, 0, 0]"

text \<open>Files shorter than a header: the signature alone, and twelve bytes whose last
  one, at offset 11, is not zero.\<close>

definition signature_only :: "uint8 list" where
  "signature_only = [0x4E, 0x45, 0x53, 0x1A]"

definition short_nonzero_fill :: "uint8 list" where
  "short_nonzero_fill = [0x4E, 0x45, 0x53, 0x1A, 0, 0, 0, 0, 0, 0, 0, 1]"

text \<open>A complete image whose signature ends in \<open>00\<close> instead of \<open>1A\<close>, and one
  whose reserved byte at offset 12 is \<open>01\<close>.\<close>

definition bad_magic_image :: "uint8 list" where
  "bad_magic_image =
     [0x4E, 0x45, 0x53, 0x00, 2, 1, 0, 0, 0, 0, 0, 0, 0, 0, 0, 0] @ replicate 40960 0"

definition nonzero_fill_image :: "uint8 list" where
  "nonzero_fill_image =
     [0x4E, 0x45, 0x53, 0x1A, 2, 1, 0, 0, 0, 0, 0, 0, 1, 0, 0, 0] @ replicate 40960 0"

section \<open>The rendered byte, bit by bit\<close>

text \<open>The character that stands for one bit.\<close>

definition bitc :: "bool \<Rightarrow> char" where
  "bitc b = (if b then CHR ''1'' else CHR ''0'')"

section \<open>Basic facts\<close>

lemma bind_e_Inl [simp]: "bind_e (Inl e) f = Inl e"
  by (simp add: bind_e_def)

lemma bind_e_Inr [simp]: "bind_e (Inr v) f = f v"
  by (simp add: bind_e_def)

lemma bin_str_length_pos: "0 < length (bin_str n)"
  by (subst bin_str.simps) simp

lemma map_rev_upt_Suc:
  "map f (rev [0..<Suc (Suc k)]) = map (\<lambda>i. f (Suc i)) (rev [0..<Suc k]) @ [f 0]"
  by (simp only: upt_conv_Cons[of 0 "Suc (Suc k)"] map_Suc_upt[symmetric]) (simp add: rev_map)

text \<open>Padded to \<open>k + 1\<close> characters, the binary digits of a number below \<open>2 ^ (k + 1)\<close>
  are its bits \<open>k, ..., 0\<close>.\<close>

lemma bin_pad:
  "n < 2 ^ Suc k \<Longrightarrow>
   replicate (Suc k - length (bin_str n)) (CHR ''0'') @ bin_str n
   = map (\<lambda>i. bitc (bit n i)) (rev [0..<Suc k])"
proof (induction k arbitrary: n)
  case 0
  then have "n = 0 \<or> n = 1" by auto
  then show ?case
    by (auto simp: bin_str.simps[of 0] bin_str.simps[of "Suc 0"] bit_char_def bitc_def bit_0)
next
  case (Suc k)
  note split = map_rev_upt_Suc[of "\<lambda>i. bitc (bit n i)" k]
  show ?case
  proof (cases "n < 2")
    case True
    then have n: "n = 0 \<or> n = 1" by auto
    have z: "\<And>i. i \<in> set (rev [0..<Suc k]) \<Longrightarrow> bit n (Suc i) = False"
      using n by (auto simp: bit_Suc)
    have "map (\<lambda>i. bitc (bit n (Suc i))) (rev [0..<Suc k])
        = map (\<lambda>i. CHR ''0'') (rev [0..<Suc k])"
      by (rule map_cong) (use z in \<open>auto simp: bitc_def\<close>)
    then have "map (\<lambda>i. bitc (bit n (Suc i))) (rev [0..<Suc k]) = replicate (Suc k) (CHR ''0'')"
      by (simp only: map_replicate_const length_rev length_upt) simp
    with split show ?thesis using n
      by (auto simp: bin_str.simps[of 0] bin_str.simps[of "Suc 0"] bit_char_def bitc_def bit_0
               simp del: upt_Suc replicate_Suc)
  next
    case False
    then have d: "n div 2 < 2 ^ Suc k" using Suc.prems by auto
    have bs: "bin_str n = bin_str (n div 2) @ [bit_char (n mod 2)]"
      using False by (subst bin_str.simps) simp
    have "map (\<lambda>i. bitc (bit n (Suc i))) (rev [0..<Suc k])
        = map (\<lambda>i. bitc (bit (n div 2) i)) (rev [0..<Suc k])"
      by (simp add: bit_Suc)
    also have "\<dots> = replicate (Suc k - length (bin_str (n div 2))) (CHR ''0'') @ bin_str (n div 2)"
      using Suc.IH[OF d] by simp
    finally show ?thesis using split
      by (simp add: bs bit_char_def bitc_def bit_0 odd_iff_mod_2_eq_one del: upt_Suc)
  qed
qed

lemma format_08b_bits:
  "format_08b b = map (\<lambda>i. bitc (bit b i)) [7, 6, 5, 4, 3, 2, 1, 0]"
proof -
  have "unat b < 2 ^ LENGTH(8)" by (rule unsigned_less)
  then have "unat b < 2 ^ Suc 7" by simp
  from bin_pad[OF this]
  have "format_08b b = map (\<lambda>i. bitc (bit (unat b) i)) (rev [0..<Suc 7])"
    by (simp add: format_08b_def Let_def)
  also have "rev [0..<Suc 7] = [7, 6, 5, 4, 3, 2, 1, 0]" by (simp add: upt_rec)
  finally show ?thesis by (simp add: bit_unsigned_iff)
qed

lemma length_format_08b: "length (format_08b b) = 8"
  by (simp add: format_08b_bits)

lemma digit_val_bitc: "digit_val (bitc x) = Some (if x then 1 else 0)"
  by (simp add: digit_val_def bitc_def)

text \<open>Character \<open>i\<close> of the rendered byte is bit \<open>7 - i\<close> of the byte.\<close>

lemma flag_at_format:
  "i < 8 \<Longrightarrow> flag_at (format_08b b) i = Inr (bit b (7 - i))"
  unfolding format_08b_bits flag_at_def index_at_def py_int_def
  by (auto simp add: digit_val_bitc less_Suc_eq numeral_eq_Suc)

lemma high_bit8: "8 \<le> n \<Longrightarrow> \<not> bit (w :: uint8) n"
  using bit_imp_le_length[of w n] by auto

lemma uint_bits8:
  fixes w :: uint8
  shows "uint w = horner_sum of_bool 2 (map (bit w) [0..<8])"
proof -
  have "horner_sum of_bool 2 (map (bit (uint w)) [0..<8]) = take_bit 8 (uint w)"
    by (rule horner_sum_bit_eq_take_bit)
  also have "take_bit 8 (uint w) = uint w"
    by (simp add: take_bit_int_eq_self_iff uint_lt2p[where 'a=8, simplified])
  also have "map (bit (uint w)) [0..<8] = map (bit w) [0..<8]"
    by (rule map_cong) (auto simp: bit_uint_iff)
  finally show ?thesis by simp
qed

lemma upt8: "[0..<8] = [0, 1, 2, 3, 4, 5, 6, 7::nat]"
  by (simp add: upt_rec)

lemma uint_bits8_sum:
  fixes w :: uint8
  shows "uint w = of_bool (bit w 0) + 2 * of_bool (bit w 1) + 4 * of_bool (bit w 2)
     + 8 * of_bool (bit w 3) + 16 * of_bool (bit w 4) + 32 * of_bool (bit w 5)
     + 64 * of_bool (bit w 6) + 128 * of_bool (bit w 7)"
  unfolding uint_bits8 upt8 by simp

lemma parse_bits:
  "parse_digits 2 acc (map bitc bs) = Inr (foldl (\<lambda>a x. a * 2 + of_bool x) acc bs)"
  by (induction bs arbitrary: acc) (simp_all add: digit_val_bitc)

text \<open>The two leading half-bytes, concatenated and read in base 2.\<close>

lemma mapper_bits:
  "py_int 2 (take 4 (format_08b a) @ take 4 (format_08b b))
   = Inr (uint ((a AND 0xF0) OR drop_bit 4 b))"
proof -
  have "take 4 (format_08b a) @ take 4 (format_08b b)
      = map bitc [bit a 7, bit a 6, bit a 5, bit a 4, bit b 7, bit b 6, bit b 5, bit b 4]"
    by (simp add: format_08b_bits)
  then have "py_int 2 (take 4 (format_08b a) @ take 4 (format_08b b))
      = Inr (foldl (\<lambda>a x. a * 2 + of_bool x) 0
               [bit a 7, bit a 6, bit a 5, bit a 4, bit b 7, bit b 6, bit b 5, bit b 4])"
    by (simp only: py_int_def parse_bits) simp
  also have "foldl (\<lambda>a x. a * 2 + of_bool x) 0
               [bit a 7, bit a 6, bit a 5, bit a 4, bit b 7, bit b 6, bit b 5, bit b 4]
     = uint ((a AND 0xF0) OR drop_bit 4 b)"
    unfolding uint_bits8_sum
    by (simp add: bit_simps high_bit8)
  finally show ?thesis .
qed

section \<open>Construction\<close>

lemma inj_uint8: "inj (uint :: uint8 \<Rightarrow> int)"
  by (rule injI) (rule word_uint_eqI)

lemma array_equal_MAGIC:
  "array_equal xs MAGIC \<longleftrightarrow> xs = [0x4E, 0x45, 0x53, 0x1A]"
proof -
  have "MAGIC = map uint [0x4E, 0x45, 0x53, 0x1A :: uint8]"
    by (simp add: MAGIC_def)
  then have "array_equal xs MAGIC
      \<longleftrightarrow> map uint xs = map uint [0x4E, 0x45, 0x53, 0x1A :: uint8]"
    by (simp only: array_equal_def)
  also have "\<dots> \<longleftrightarrow> xs = [0x4E, 0x45, 0x53, 0x1A]"
    by (rule inj_map_eq_map[OF inj_uint8])
  finally show ?thesis .
qed

lemma magic_eq: "magic \<lparr>raw_data = bytes\<rparr> = take 4 bytes"
  by (simp add: magic_def header_def)

lemma zero_fill_eq:
  "zero_fill \<lparr>raw_data = bytes\<rparr> = sum_list (map unat (take 5 (drop 11 bytes)))"
  by (simp add: zero_fill_def header_def np_sum_def drop_take)

text \<open>The constructor on the path of an existing file, as one case distinction on the
  bytes of the file.\<close>

lemma ROM_init_Str:
  "fs path = Some bytes \<Longrightarrow>
   ROM_init fs (Str path) =
     (if take 4 bytes \<noteq> [0x4E, 0x45, 0x53, 0x1A]
      then Inl (ValueError ''ROM missing magic number in header.'')
      else if sum_list (map unat (take 5 (drop 11 bytes))) \<noteq> 0
      then Inl (ValueError ''ROM header zero fill bytes are not zero.'')
      else Inr \<lparr>raw_data = bytes\<rparr>)"
  by (simp add: ROM_init_def Let_def array_equal_MAGIC magic_eq zero_fill_eq)

lemma ROM_init_InrD:
  assumes "ROM_init fs rom_path = Inr rom"
  shows "\<exists>path. rom_path = Str path \<and> fs path = Some (raw_data rom)
          \<and> take 4 (raw_data rom) = [0x4E, 0x45, 0x53, 0x1A]
          \<and> sum_list (map unat (take 5 (drop 11 (raw_data rom)))) = 0"
proof (cases rom_path)
  case NotStr
  with assms show ?thesis by (simp add: ROM_init_def)
next
  case (Str path)
  show ?thesis
  proof (cases "fs path")
    case None
    with assms Str show ?thesis by (simp add: ROM_init_def)
  next
    case (Some bytes)
    from assms Some Str ROM_init_Str[of fs path bytes] show ?thesis
      by (auto split: if_splits)
  qed
qed

text \<open>
  Claim C7. A file whose first four bytes are not exactly \<open>4E 45 53 1A\<close> (a file
  shorter than four bytes included) is rejected by the constructor with the ValueError
  for a missing magic number; no ROM object is returned.
\<close>

theorem bad_magic_rejected:
  assumes "fs path = Some bytes"
    and "take 4 bytes \<noteq> [0x4E, 0x45, 0x53, 0x1A]"
  shows "ROM_init fs (Str path) = Inl (ValueError ''ROM missing magic number in header.'')
         \<and> ROM_init fs (Str path) \<noteq> Inr rom"
  using assms by (simp add: ROM_init_Str)

theorem bad_magic_rejected_witness:
  "one_file ''e.nes'' bad_magic_image ''e.nes'' = Some bad_magic_image
   \<and> take 4 bad_magic_image \<noteq> [0x4E, 0x45, 0x53, 0x1A]
   \<and> ROM_init (one_file ''e.nes'' bad_magic_image) (Str ''e.nes'')
       = Inl (ValueError ''ROM missing magic number in header.'')
   \<and> ROM_init (one_file ''e.nes'' bad_magic_image) (Str ''e.nes'')
       \<noteq> Inr \<lparr>raw_data = bad_magic_image\<rparr>"
  using bad_magic_rejected[of "one_file ''e.nes'' bad_magic_image" "''e.nes''"
      bad_magic_image "\<lparr>raw_data = bad_magic_image\<rparr>"]
  by (simp add: one_file_def bad_magic_image_def)

text \<open>
  Claim C8. A file that starts with the signature and whose reserved bytes at offsets
  11 to 15 do not sum to zero is rejected by the constructor with the ValueError for
  non-zero zero-fill bytes.
\<close>

theorem nonzero_fill_rejected:
  assumes "fs path = Some bytes"
    and "take 4 bytes = [0x4E, 0x45, 0x53, 0x1A]"
    and "sum_list (map unat (take 5 (drop 11 bytes))) \<noteq> 0"
  shows "ROM_init fs (Str path)
         = Inl (ValueError ''ROM header zero fill bytes are not zero.'')"
  using assms by (simp add: ROM_init_Str)

theorem nonzero_fill_rejected_witness:
  "one_file ''d.nes'' nonzero_fill_image ''d.nes'' = Some nonzero_fill_image
   \<and> take 4 nonzero_fill_image = [0x4E, 0x45, 0x53, 0x1A]
   \<and> sum_list (map unat (take 5 (drop 11 nonzero_fill_image))) \<noteq> 0
   \<and> ROM_init (one_file ''d.nes'' nonzero_fill_image) (Str ''d.nes'')
       = Inl (ValueError ''ROM header zero fill bytes are not zero.'')"
  using nonzero_fill_rejected[of "one_file ''d.nes'' nonzero_fill_image" "''d.nes''"
      nonzero_fill_image]
  by (simp add: one_file_def nonzero_fill_image_def)

section \<open>Header flags\<close>

lemma index_at_header:
  "i < 16 \<Longrightarrow> index_at (header rom) i = index_at (raw_data rom) i"
  by (simp add: index_at_def header_def)

lemma header_byte_present:
  "i < 16 \<Longrightarrow> i < length (raw_data rom) \<Longrightarrow> index_at (header rom) i = Inr (raw_data rom ! i)"
  by (simp add: index_at_def header_def)

lemma header_byte_absent:
  "length (raw_data rom) \<le> i \<Longrightarrow> index_at (header rom) i = Inl IndexError"
  by (simp add: index_at_def header_def)

lemma flag_of_flags_6:
  "i < 8 \<Longrightarrow> bind_e (flags_6 rom) (\<lambda>f. flag_at f i)
     = bind_e (index_at (header rom) 6) (\<lambda>b. Inr (bit b (7 - i)))"
  by (cases "index_at (header rom) 6") (simp_all add: flags_6_def flag_at_format)

lemma flag_of_flags_7:
  "i < 8 \<Longrightarrow> bind_e (flags_7 rom) (\<lambda>f. flag_at f i)
     = bind_e (index_at (header rom) 7) (\<lambda>b. Inr (bit b (7 - i)))"
  by (cases "index_at (header rom) 7") (simp_all add: flags_7_def flag_at_format)

lemma flag_of_flags_9:
  "i < 8 \<Longrightarrow> bind_e (flags_9 rom) (\<lambda>f. flag_at f i)
     = bind_e (index_at (header rom) 9) (\<lambda>b. Inr (bit b (7 - i)))"
  by (cases "index_at (header rom) 9") (simp_all add: flags_9_def flag_at_format)

lemma mapper_eq:
  "mapper rom = bind_e (index_at (header rom) 7) (\<lambda>flags7.
                 bind_e (index_at (header rom) 6) (\<lambda>flags6.
                   Inr (uint ((flags7 AND 0xF0) OR drop_bit 4 flags6))))"
  by (cases "index_at (header rom) 7"; cases "index_at (header rom) 6")
     (simp_all add: mapper_def flags_7_def flags_6_def mapper_bits)

text \<open>
  Claim C4. For a constructed ROM the mapper number is \<open>(flags7 & 0xF0) | (flags6 >> 4)\<close>,
  with \<open>flags7\<close> and \<open>flags6\<close> the header bytes 7 and 6 read as the class reads
  them (byte 7 first; a byte the file does not hold raises IndexError); every value
  returned lies in 0..255; and a file of at least eight bytes always gets the value
  of the formula on its bytes 7 and 6.
\<close>

theorem mapper_formula:
  assumes "ROM_init fs rom_path = Inr rom"
  shows "mapper rom = bind_e (index_at (header rom) 7) (\<lambda>flags7.
                       bind_e (index_at (header rom) 6) (\<lambda>flags6.
                         Inr (uint ((flags7 AND 0xF0) OR drop_bit 4 flags6))))
       \<and> (\<forall>m. mapper rom = Inr m \<longrightarrow> 0 \<le> m \<and> m \<le> 255)
       \<and> (8 \<le> length (raw_data rom) \<longrightarrow>
            mapper rom = Inr (uint ((raw_data rom ! 7 AND 0xF0) OR drop_bit 4 (raw_data rom ! 6))))"
proof (intro conjI allI impI)
  show "mapper rom = bind_e (index_at (header rom) 7) (\<lambda>flags7.
                       bind_e (index_at (header rom) 6) (\<lambda>flags6.
                         Inr (uint ((flags7 AND 0xF0) OR drop_bit 4 flags6))))"
    by (rule mapper_eq)
next
  fix m assume "mapper rom = Inr m"
  then obtain w :: uint8 where m: "m = uint w"
    unfolding mapper_eq
    by (cases "index_at (header rom) 7"; cases "index_at (header rom) 6") auto
  show "0 \<le> m" by (simp add: m)
  show "m \<le> 255" using uint_lt2p[of w] by (simp add: m)
next
  assume "8 \<le> length (raw_data rom)"
  then show "mapper rom = Inr (uint ((raw_data rom ! 7 AND 0xF0) OR drop_bit 4 (raw_data rom ! 6)))"
    by (simp add: mapper_eq header_byte_present)
qed

theorem mapper_formula_witness:
  "ROM_init (one_file ''m.nes'' flags_header) (Str ''m.nes'') = Inr \<lparr>raw_data = flags_header\<rparr>
   \<and> 8 \<le> length (raw_data \<lparr>raw_data = flags_header\<rparr>)
   \<and> mapper \<lparr>raw_data = flags_header\<rparr> = Inr 0xA3
   \<and> (0::int) \<le> 0xA3 \<and> (0xA3::int) \<le> 255"
proof -
  have c: "ROM_init (one_file ''m.nes'' flags_header) (Str ''m.nes'')
           = Inr \<lparr>raw_data = flags_header\<rparr>"
    by (simp add: ROM_init_Str one_file_def flags_header_def)
  have l: "8 \<le> length (raw_data \<lparr>raw_data = flags_header\<rparr>)"
    by (simp add: flags_header_def)
  from mapper_formula[OF c] l
  have "mapper \<lparr>raw_data = flags_header\<rparr>
        = Inr (uint ((raw_data \<lparr>raw_data = flags_header\<rparr> ! 7 AND 0xF0)
                 OR drop_bit 4 (raw_data \<lparr>raw_data = flags_header\<rparr> ! 6)))"
    by blast
  then have "mapper \<lparr>raw_data = flags_header\<rparr> = Inr 0xA3"
    by (simp add: flags_header_def)
  with c l show ?thesis by simp
qed

text \<open>
  Claim C5. For a constructed ROM each flag reads the documented bit of its header
  byte, the byte read as the class reads it: ignore-mirroring is bit 3 of byte 6,
  vertical mirroring bit 0, the trainer flag bit 2 and the battery flag bit 1 of the
  same byte, and the PAL flag is bit 0 of byte 9. A file that holds the byte (seven
  bytes for the flags of byte 6, ten for the PAL flag) gets exactly that bit.
\<close>

theorem flag_bit_positions:
  assumes "ROM_init fs rom_path = Inr rom"
  shows "is_ignore_mirroring rom = bind_e (index_at (header rom) 6) (\<lambda>flags6. Inr (bit flags6 3))
       \<and> is_vertical_mirroring rom = bind_e (index_at (header rom) 6) (\<lambda>flags6. Inr (bit flags6 0))
       \<and> has_trainer rom = bind_e (index_at (header rom) 6) (\<lambda>flags6. Inr (bit flags6 2))
       \<and> has_battery_backed_ram rom
           = bind_e (index_at (header rom) 6) (\<lambda>flags6. Inr (bit flags6 1))
       \<and> is_pal rom = bind_e (index_at (header rom) 9) (\<lambda>flags9. Inr (bit flags9 0))
       \<and> (7 \<le> length (raw_data rom) \<longrightarrow>
            is_ignore_mirroring rom = Inr (bit (raw_data rom ! 6) 3)
          \<and> is_vertical_mirroring rom = Inr (bit (raw_data rom ! 6) 0)
          \<and> has_trainer rom = Inr (bit (raw_data rom ! 6) 2)
          \<and> has_battery_backed_ram rom = Inr (bit (raw_data rom ! 6) 1))
       \<and> (10 \<le> length (raw_data rom) \<longrightarrow> is_pal rom = Inr (bit (raw_data rom ! 9) 0))"
proof -
  have im: "is_ignore_mirroring rom = bind_e (index_at (header rom) 6) (\<lambda>b. Inr (bit b 3))"
    using flag_of_flags_6[of 4 rom] by (simp add: is_ignore_mirroring_def)
  have vm: "is_vertical_mirroring rom = bind_e (index_at (header rom) 6) (\<lambda>b. Inr (bit b 0))"
    using flag_of_flags_6[of 7 rom] by (simp add: is_vertical_mirroring_def)
  have tr: "has_trainer rom = bind_e (index_at (header rom) 6) (\<lambda>b. Inr (bit b 2))"
    using flag_of_flags_6[of 5 rom] by (simp add: has_trainer_def)
  have br: "has_battery_backed_ram rom = bind_e (index_at (header rom) 6) (\<lambda>b. Inr (bit b 1))"
    using flag_of_flags_6[of 6 rom] by (simp add: has_battery_backed_ram_def)
  have pal: "is_pal rom = bind_e (index_at (header rom) 9) (\<lambda>b. Inr (bit b 0))"
    using flag_of_flags_9[of 7 rom] by (simp add: is_pal_def)
  show ?thesis
    by (simp add: im vm tr br pal header_byte_present)
qed

theorem flag_bit_positions_witness:
  "ROM_init (one_file ''f.nes'' flags_header) (Str ''f.nes'') = Inr \<lparr>raw_data = flags_header\<rparr>
   \<and> 10 \<le> length (raw_data \<lparr>raw_data = flags_header\<rparr>)
   \<and> is_ignore_mirroring \<lparr>raw_data = flags_header\<rparr> = Inr True
   \<and> is_vertical_mirroring \<lparr>raw_data = flags_header\<rparr> = Inr False
   \<and> has_trainer \<lparr>raw_data = flags_header\<rparr> = Inr True
   \<and> has_battery_backed_ram \<lparr>raw_data = flags_header\<rparr> = Inr False
   \<and> is_pal \<lparr>raw_data = flags_header\<rparr> = Inr True"
proof -
  have c: "ROM_init (one_file ''f.nes'' flags_header) (Str ''f.nes'')
           = Inr \<lparr>raw_data = flags_header\<rparr>"
    by (simp add: ROM_init_Str one_file_def flags_header_def)
  have l: "10 \<le> length (raw_data \<lparr>raw_data = flags_header\<rparr>)"
    by (simp add: flags_header_def)
  have b: "raw_data \<lparr>raw_data = flags_header\<rparr> ! 6 = 0x3C"
      "raw_data \<lparr>raw_data = flags_header\<rparr> ! 9 = 1"
    by (simp_all add: flags_header_def)
  have l7: "7 \<le> length (raw_data \<lparr>raw_data = flags_header\<rparr>)"
    by (simp add: flags_header_def)
  from flag_bit_positions[OF c] l l7
  have "is_ignore_mirroring \<lparr>raw_data = flags_header\<rparr>
          = Inr (bit (raw_data \<lparr>raw_data = flags_header\<rparr> ! 6) 3)
      \<and> is_vertical_mirroring \<lparr>raw_data = flags_header\<rparr>
          = Inr (bit (raw_data \<lparr>raw_data = flags_header\<rparr> ! 6) 0)
      \<and> has_trainer \<lparr>raw_data = flags_header\<rparr>
          = Inr (bit (raw_data \<lparr>raw_data = flags_header\<rparr> ! 6) 2)
      \<and> has_battery_backed_ram \<lparr>raw_data = flags_header\<rparr>
          = Inr (bit (raw_data \<lparr>raw_data = flags_header\<rparr> ! 6) 1)
      \<and> is_pal \<lparr>raw_data = flags_header\<rparr>
          = Inr (bit (raw_data \<lparr>raw_data = flags_header\<rparr> ! 9) 0)"
    by blast
  then show ?thesis using c l unfolding b by simp
qed

section \<open>Program RAM size\<close>

lemma wrap8: "uint ((word_of_int 8 :: uint8) * x) = (8 * uint x) mod 256"
proof -
  have "uint ((8 :: uint8) * x) = uint (8 :: uint8) * uint x mod 2 ^ LENGTH(8)"
    by (rule uint_word_ariths)
  then show ?thesis by simp
qed

lemma mul_int_uint8_small:
  assumes "p = Legacy \<or> unat x < 32"
  shows "mul_int_uint8 p 8 x = 8 * uint x"
proof (cases p)
  case Legacy
  then show ?thesis by (simp add: mul_int_uint8_def)
next
  case NEP50
  with assms have "unat x < 32" by simp
  then have "int (unat x) < int 32" by (simp only: of_nat_less_iff)
  then have "uint x < 32" by simp
  then have "(8 * uint x) mod 256 = 8 * uint x" by simp
  then show ?thesis using NEP50
    by (simp only: mul_int_uint8_def wrap8 np_promotion.case)
qed

lemma mul_int_uint8_wraps: "mul_int_uint8 NEP50 8 32 = 0"
  by (simp add: mul_int_uint8_def)

text \<open>From 32 units on the two promotion rules differ: the product no longer fits
  a byte.\<close>

lemma prg_ram_size_wraps:
  assumes "index_at (header rom) 8 = Inr 32"
  shows "prg_ram_size NEP50 rom = Inr 0" and "prg_ram_size Legacy rom = Inr 256"
  using assms by (simp_all add: prg_ram_size_def mul_int_uint8_def)

text \<open>
  Claim C3, amended. The property \<open>prg_ram_size\<close> is a number of KiB, not of bytes:
  for a constructed ROM whose header byte 8 is \<open>units\<close> it is
  \<open>8 * (1 if units == 0 else units)\<close>, so 8 when \<open>units\<close> is 0, and 1024 times
  that is the number of bytes \<open>8192 * (1 if units == 0 else units)\<close>. The product
  \<open>8 * units\<close> is computed on the NumPy scalar: the statement holds under the legacy
  promotion rule for every byte, and under either rule when \<open>units < 32\<close>.
\<close>

theorem prg_ram_size_kib:
  assumes "ROM_init fs rom_path = Inr rom"
    and "index_at (header rom) 8 = Inr units"
    and "p = Legacy \<or> unat units < 32"
  shows "prg_ram_size p rom = Inr (8 * (if units = 0 then 1 else uint units))
       \<and> (units = 0 \<longrightarrow> prg_ram_size p rom = Inr 8)
       \<and> 1024 * (8 * (if units = 0 then 1 else uint units))
           = 8192 * (if units = 0 then 1 else uint units)"
  using assms(2) mul_int_uint8_small[OF assms(3)]
  by (simp add: prg_ram_size_def)


theorem prg_ram_size_kib_witness:
  "ROM_init (one_file ''r.nes'' flags_header) (Str ''r.nes'') = Inr \<lparr>raw_data = flags_header\<rparr>
   \<and> index_at (header \<lparr>raw_data = flags_header\<rparr>) 8 = Inr 4
   \<and> unat (4 :: uint8) < 32
   \<and> prg_ram_size NEP50 \<lparr>raw_data = flags_header\<rparr> = Inr 32
   \<and> prg_ram_size Legacy \<lparr>raw_data = flags_header\<rparr> = Inr 32"
proof -
  let ?rom = "\<lparr>raw_data = flags_header\<rparr>"
  have c: "ROM_init (one_file ''r.nes'' flags_header) (Str ''r.nes'') = Inr ?rom"
    by (simp add: ROM_init_Str one_file_def flags_header_def)
  have u: "index_at (header ?rom) 8 = Inr 4"
    by (simp add: index_at_def header_def flags_header_def)
  have s: "unat (4 :: uint8) < 32" by simp
  from prg_ram_size_kib[OF c u, of NEP50] prg_ram_size_kib[OF c u, of Legacy] s
  have "prg_ram_size NEP50 ?rom = Inr 32" and "prg_ram_size Legacy ?rom = Inr 32"
    by simp_all
  with c u s show ?thesis by simp
qed

text \<open>On the complete image, whose header byte 8 is 0, \<open>prg_ram_size\<close> is 8 and
  not 8192.\<close>

theorem prg_ram_size_bytes_counterexample:
  "ROM_init (one_file ''a.nes'' complete_image) (Str ''a.nes'') = Inr \<lparr>raw_data = complete_image\<rparr>
   \<and> index_at (header \<lparr>raw_data = complete_image\<rparr>) 8 = Inr 0
   \<and> prg_ram_size Legacy \<lparr>raw_data = complete_image\<rparr> = Inr 8
   \<and> prg_ram_size NEP50 \<lparr>raw_data = complete_image\<rparr> = Inr 8
   \<and> prg_ram_size Legacy \<lparr>raw_data = complete_image\<rparr> \<noteq> Inr 8192
   \<and> prg_ram_size NEP50 \<lparr>raw_data = complete_image\<rparr> \<noteq> Inr 8192"
proof -
  let ?rom = "\<lparr>raw_data = complete_image\<rparr>"
  have c: "ROM_init (one_file ''a.nes'' complete_image) (Str ''a.nes'') = Inr ?rom"
    by (simp add: ROM_init_Str one_file_def complete_image_def plain_header_def)
  have u: "index_at (header ?rom) 8 = Inr 0"
    by (simp add: index_at_def header_def complete_image_def plain_header_def)
  then have "prg_ram_size Legacy ?rom = Inr 8" and "prg_ram_size NEP50 ?rom = Inr 8"
    by (simp_all add: prg_ram_size_def)
  with c u show ?thesis by simp
qed

section \<open>Memory regions\<close>

lemma has_trainer_eq:
  "has_trainer rom = bind_e (index_at (header rom) 6) (\<lambda>b. Inr (bit b 2))"
  using flag_of_flags_6[of 5 rom] by (simp add: has_trainer_def)

lemma trainer_rom_stop_eq:
  "trainer_rom_stop rom
   = bind_e (index_at (header rom) 6) (\<lambda>b. Inr (if bit b 2 then 528 else 16))"
  by (cases "index_at (header rom) 6") (simp_all add: trainer_rom_stop_def has_trainer_eq)

lemma prg_rom_stop_eq:
  "7 \<le> length (raw_data rom) \<Longrightarrow>
   prg_rom_stop rom = Inr ((if bit (raw_data rom ! 6) 2 then 528 else 16)
                           + 16384 * uint (raw_data rom ! 4))"
  by (simp add: prg_rom_stop_def prg_rom_start_def trainer_rom_stop_eq prg_rom_size_def
      header_byte_present)

lemma chr_rom_stop_eq:
  "7 \<le> length (raw_data rom) \<Longrightarrow>
   chr_rom_stop rom = Inr ((if bit (raw_data rom ! 6) 2 then 528 else 16)
                           + 16384 * uint (raw_data rom ! 4) + 8192 * uint (raw_data rom ! 5))"
  by (simp add: chr_rom_stop_def chr_rom_start_def prg_rom_stop_eq chr_rom_size_def
      header_byte_present)

lemma short_boundaries:
  assumes "length (raw_data rom) < 7"
  shows "trainer_rom_stop rom = Inl IndexError" "prg_rom_stop rom = Inl IndexError"
    "chr_rom_stop rom = Inl IndexError"
  using assms
  by (simp_all add: chr_rom_stop_def chr_rom_start_def prg_rom_stop_def prg_rom_start_def
      trainer_rom_stop_eq header_byte_absent)

text \<open>
  Claim C9. For a constructed ROM the trainer starts at offset 16, the start of the
  PRG-ROM is the end of the trainer and the start of the CHR-ROM is the end of the
  PRG-ROM (as results: equal values, or the same exception on a file too short to hold
  the header bytes they read); the boundaries that are computed are ordered
  \<open>16 \<le> trainer end \<le> PRG end \<le> CHR end\<close>, so the regions do not overlap; and
  a file of at least seven bytes has all of them.
\<close>

theorem regions_contiguous:
  assumes "ROM_init fs rom_path = Inr rom"
  shows "trainer_rom_start rom = 16
       \<and> prg_rom_start rom = trainer_rom_stop rom
       \<and> chr_rom_start rom = prg_rom_stop rom
       \<and> (\<forall>t p c. trainer_rom_stop rom = Inr t \<and> prg_rom_stop rom = Inr p
                    \<and> chr_rom_stop rom = Inr c
                  \<longrightarrow> trainer_rom_start rom \<le> t \<and> t \<le> p \<and> p \<le> c)
       \<and> (7 \<le> length (raw_data rom) \<longrightarrow>
            (\<exists>t p c. trainer_rom_stop rom = Inr t \<and> prg_rom_stop rom = Inr p
                    \<and> chr_rom_stop rom = Inr c))"
proof (intro conjI allI impI)
  show "trainer_rom_start rom = 16" by (simp add: trainer_rom_start_def)
  show "prg_rom_start rom = trainer_rom_stop rom" by (simp add: prg_rom_start_def)
  show "chr_rom_start rom = prg_rom_stop rom"
    by (cases "prg_rom_stop rom") (simp_all add: chr_rom_start_def)
next
  fix t p c
  assume a: "trainer_rom_stop rom = Inr t \<and> prg_rom_stop rom = Inr p \<and> chr_rom_stop rom = Inr c"
  then have len: "7 \<le> length (raw_data rom)"
    using short_boundaries(1)[of rom] by (cases "length (raw_data rom) < 7") auto
  from a have "t = (if bit (raw_data rom ! 6) 2 then 528 else 16)"
    using len by (simp add: trainer_rom_stop_eq header_byte_present)
  moreover from a have "p = t + 16384 * uint (raw_data rom ! 4)"
    using len calculation by (simp add: prg_rom_stop_eq)
  moreover from a have "c = p + 8192 * uint (raw_data rom ! 5)"
    using len calculation by (simp add: chr_rom_stop_eq)
  ultimately show "trainer_rom_start rom \<le> t" "t \<le> p" "p \<le> c"
    by (simp_all add: trainer_rom_start_def)
next
  assume "7 \<le> length (raw_data rom)"
  then show "\<exists>t p c. trainer_rom_stop rom = Inr t \<and> prg_rom_stop rom = Inr p
                    \<and> chr_rom_stop rom = Inr c"
    by (simp add: trainer_rom_stop_eq header_byte_present prg_rom_stop_eq chr_rom_stop_eq)
qed

theorem regions_contiguous_witness:
  "ROM_init (one_file ''c.nes'' trainer_image) (Str ''c.nes'') = Inr \<lparr>raw_data = trainer_image\<rparr>
   \<and> 7 \<le> length (raw_data \<lparr>raw_data = trainer_image\<rparr>)
   \<and> trainer_rom_start \<lparr>raw_data = trainer_image\<rparr> = 16
   \<and> trainer_rom_stop \<lparr>raw_data = trainer_image\<rparr> = Inr 528
   \<and> prg_rom_start \<lparr>raw_data = trainer_image\<rparr> = Inr 528
   \<and> prg_rom_stop \<lparr>raw_data = trainer_image\<rparr> = Inr 33296
   \<and> chr_rom_start \<lparr>raw_data = trainer_image\<rparr> = Inr 33296
   \<and> chr_rom_stop \<lparr>raw_data = trainer_image\<rparr> = Inr 41488"
proof -
  let ?rom = "\<lparr>raw_data = trainer_image\<rparr>"
  have c: "ROM_init (one_file ''c.nes'' trainer_image) (Str ''c.nes'') = Inr ?rom"
    by (simp add: ROM_init_Str one_file_def trainer_image_def trainer_header_def)
  have l: "7 \<le> length (raw_data ?rom)"
    by (simp add: trainer_image_def trainer_header_def)
  have t: "trainer_rom_stop ?rom = Inr 528"
    by (simp add: trainer_rom_stop_eq header_byte_present trainer_image_def trainer_header_def)
  have p: "prg_rom_stop ?rom = Inr 33296"
    using l by (simp add: prg_rom_stop_eq) (simp add: trainer_image_def trainer_header_def)
  have ch: "chr_rom_stop ?rom = Inr 41488"
    using l by (simp add: chr_rom_stop_eq) (simp add: trainer_image_def trainer_header_def)
  from regions_contiguous[OF c]
  have "trainer_rom_start ?rom = 16" and "prg_rom_start ?rom = trainer_rom_stop ?rom"
    and "chr_rom_start ?rom = prg_rom_stop ?rom"
    by blast+
  with c l t p ch show ?thesis by simp
qed

lemma py_slice_nonneg:
  "0 \<le> lo \<Longrightarrow> 0 \<le> hi \<Longrightarrow>
   py_slice xs lo hi = take (min (nat hi) (length xs) - min (nat lo) (length xs))
                            (drop (min (nat lo) (length xs)) xs)"
  by (simp add: py_slice_def slice_bound_def Let_def)

lemma length_py_slice:
  "0 \<le> lo \<Longrightarrow> 0 \<le> hi \<Longrightarrow>
   length (py_slice xs lo hi) = min (nat hi) (length xs) - min (nat lo) (length xs)"
  by (simp add: py_slice_nonneg)

lemma py_slice_past_end:
  "int (length xs) \<le> lo \<Longrightarrow> 0 \<le> hi \<Longrightarrow> py_slice xs lo hi = []"
  by (simp add: py_slice_nonneg)

lemma trainer_rom_eq:
  "7 \<le> length (raw_data rom) \<Longrightarrow>
   trainer_rom rom = Inr (py_slice (raw_data rom) 16 (if bit (raw_data rom ! 6) 2 then 528 else 16))"
  by (simp add: trainer_rom_def trainer_rom_stop_eq header_byte_present trainer_rom_start_def)

lemma prg_rom_eq:
  "7 \<le> length (raw_data rom) \<Longrightarrow>
   prg_rom rom = Inr (py_slice (raw_data rom)
                        (if bit (raw_data rom ! 6) 2 then 528 else 16)
                        ((if bit (raw_data rom ! 6) 2 then 528 else 16)
                           + 16384 * uint (raw_data rom ! 4)))"
  by (simp add: prg_rom_def prg_rom_start_def trainer_rom_stop_eq header_byte_present
      prg_rom_stop_eq except_IndexError_def)

lemma chr_rom_eq:
  "7 \<le> length (raw_data rom) \<Longrightarrow>
   chr_rom rom = Inr (py_slice (raw_data rom)
                        ((if bit (raw_data rom ! 6) 2 then 528 else 16)
                           + 16384 * uint (raw_data rom ! 4))
                        ((if bit (raw_data rom ! 6) 2 then 528 else 16)
                           + 16384 * uint (raw_data rom ! 4) + 8192 * uint (raw_data rom ! 5)))"
  by (simp add: chr_rom_def chr_rom_start_def chr_rom_stop_eq prg_rom_stop_eq
      except_IndexError_def)

lemma short_regions:
  assumes "length (raw_data rom) < 7"
  shows "trainer_rom rom = Inl IndexError"
    and "prg_rom rom = Inl (ValueError ''failed to read PRG-ROM on ROM.'')"
    and "chr_rom rom = Inl (ValueError ''failed to read CHR-ROM on ROM.'')"
  using assms short_boundaries[OF assms]
  by (simp_all add: trainer_rom_def prg_rom_def chr_rom_def prg_rom_start_def chr_rom_start_def
      except_IndexError_def)

text \<open>A slice is clamped and never raises, so once the header bytes 4 to 6 are there,
  every region is returned, whatever the length of the file.\<close>

lemma slices_never_raise:
  assumes "7 \<le> length (raw_data rom)"
  shows "\<exists>t p q. trainer_rom rom = Inr t \<and> prg_rom rom = Inr p \<and> chr_rom rom = Inr q"
  by (simp add: trainer_rom_eq[OF assms] prg_rom_eq[OF assms] chr_rom_eq[OF assms])

lemma length_py_slice_inside:
  assumes "0 \<le> lo" and "lo \<le> hi" and "hi \<le> int (length xs)"
  shows "int (length (py_slice xs lo hi)) = hi - lo"
proof -
  have "min (nat hi) (length xs) = nat hi" and "min (nat lo) (length xs) = nat lo"
    using assms by linarith+
  then show ?thesis using assms by (simp add: length_py_slice)
qed

text \<open>On a file that reaches the computed end of the CHR-ROM the three views have the
  declared sizes.\<close>

lemma complete_file_lengths:
  assumes "chr_rom_stop rom = Inr c" and "c \<le> int (length (raw_data rom))"
  shows "\<exists>t p q. trainer_rom rom = Inr t \<and> prg_rom rom = Inr p \<and> chr_rom rom = Inr q
           \<and> int (length t) = (if bit (raw_data rom ! 6) 2 then 512 else 0)
           \<and> int (length p) = 16384 * uint (raw_data rom ! 4)
           \<and> int (length q) = 8192 * uint (raw_data rom ! 5)"
proof -
  have l: "7 \<le> length (raw_data rom)"
    using assms(1) short_boundaries(3)[of rom] by (cases "length (raw_data rom) < 7") auto
  define t :: int where "t = (if bit (raw_data rom ! 6) 2 then 528 else 16)"
  define u where "u = uint (raw_data rom ! 4)"
  define v where "v = uint (raw_data rom ! 5)"
  have c: "c = t + 16384 * u + 8192 * v"
    using assms(1) by (simp add: chr_rom_stop_eq[OF l] t_def u_def v_def)
  have u: "0 \<le> u" and v: "0 \<le> v" by (simp_all add: u_def v_def)
  have t: "16 \<le> t" by (simp add: t_def)
  have le: "t + 16384 * u + 8192 * v \<le> int (length (raw_data rom))"
    using c assms(2) by simp
  have "int (length (py_slice (raw_data rom) 16 t)) = t - 16"
    using t u v le by (intro length_py_slice_inside) auto
  moreover have "int (length (py_slice (raw_data rom) t (t + 16384 * u))) = 16384 * u"
    using length_py_slice_inside[of t "t + 16384 * u" "raw_data rom"] t u v le by simp
  moreover have "int (length (py_slice (raw_data rom) (t + 16384 * u) (t + 16384 * u + 8192 * v)))
                 = 8192 * v"
    using length_py_slice_inside[of "t + 16384 * u" "t + 16384 * u + 8192 * v" "raw_data rom"]
      t u v le by simp
  moreover have "t - 16 = (if bit (raw_data rom ! 6) 2 then 512 else 0)"
    by (simp add: t_def)
  ultimately show ?thesis
    unfolding trainer_rom_eq[OF l] prg_rom_eq[OF l] chr_rom_eq[OF l]
    by (simp add: t_def[symmetric] u_def[symmetric] v_def[symmetric])
qed

text \<open>
  Claim C1. The image with two PRG units and one CHR unit, cut to 1000 bytes, passes
  the magic and zero-fill checks; its computed PRG end 32784 and CHR end 40976 both
  exceed its length. Reading the regions raises nothing: \<open>prg_rom\<close> is the 984 bytes
  that follow the header and \<open>chr_rom\<close> is empty. The handler for IndexError around
  the slice is never reached, since slicing clamps.
\<close>

theorem truncated_image_not_rejected:
  "ROM_init (one_file ''b.nes'' truncated_image) (Str ''b.nes'')
     = Inr \<lparr>raw_data = truncated_image\<rparr>
   \<and> length (raw_data \<lparr>raw_data = truncated_image\<rparr>) = 1000
   \<and> prg_rom_stop \<lparr>raw_data = truncated_image\<rparr> = Inr 32784
   \<and> chr_rom_stop \<lparr>raw_data = truncated_image\<rparr> = Inr 40976
   \<and> prg_rom \<lparr>raw_data = truncated_image\<rparr> = Inr (replicate 984 0)
   \<and> chr_rom \<lparr>raw_data = truncated_image\<rparr> = Inr []"
proof -
  let ?rom = "\<lparr>raw_data = truncated_image\<rparr>"
  have c: "ROM_init (one_file ''b.nes'' truncated_image) (Str ''b.nes'') = Inr ?rom"
    by (simp add: ROM_init_Str one_file_def truncated_image_def plain_header_def)
  have n: "length (raw_data ?rom) = 1000"
    by (simp add: truncated_image_def plain_header_def)
  then have l: "7 \<le> length (raw_data ?rom)" by simp
  have b: "raw_data ?rom ! 4 = 2" "raw_data ?rom ! 5 = 1" "raw_data ?rom ! 6 = 0"
    by (simp_all add: truncated_image_def plain_header_def)
  have d: "drop 16 truncated_image = replicate 984 0"
    by (simp add: truncated_image_def plain_header_def)
  have ps: "prg_rom_stop ?rom = Inr 32784"
    unfolding prg_rom_stop_eq[OF l] b by simp
  have cs: "chr_rom_stop ?rom = Inr 40976"
    unfolding chr_rom_stop_eq[OF l] b by simp
  have p: "prg_rom ?rom = Inr (replicate 984 0)"
    unfolding prg_rom_eq[OF l] b using n by (simp add: py_slice_nonneg d)
  have ch: "chr_rom ?rom = Inr []"
    unfolding chr_rom_eq[OF l] b using n by (simp add: py_slice_nonneg)
  from c n ps cs p ch show ?thesis by simp
qed

text \<open>
  Claim C2. The same header followed by 20000 bytes constructs, and each of its regions
  is read without an exception; the header declares 2 PRG units and 1 CHR unit, but
  \<open>prg_rom\<close> has 20000 bytes, not 32768, and \<open>chr_rom\<close> has none, not 8192.
\<close>

theorem half_image_wrong_lengths:
  "ROM_init (one_file ''h.nes'' half_image) (Str ''h.nes'') = Inr \<lparr>raw_data = half_image\<rparr>
   \<and> index_at (header \<lparr>raw_data = half_image\<rparr>) 4 = Inr 2
   \<and> index_at (header \<lparr>raw_data = half_image\<rparr>) 5 = Inr 1
   \<and> trainer_rom \<lparr>raw_data = half_image\<rparr> = Inr []
   \<and> prg_rom \<lparr>raw_data = half_image\<rparr> = Inr (replicate 20000 0)
   \<and> chr_rom \<lparr>raw_data = half_image\<rparr> = Inr []
   \<and> length (replicate 20000 (0 :: uint8)) \<noteq> 16384 * 2
   \<and> length ([] :: uint8 list) \<noteq> 8192 * 1"
proof -
  let ?rom = "\<lparr>raw_data = half_image\<rparr>"
  have c: "ROM_init (one_file ''h.nes'' half_image) (Str ''h.nes'') = Inr ?rom"
    by (simp add: ROM_init_Str one_file_def half_image_def plain_header_def)
  have n: "length (raw_data ?rom) = 20016"
    by (simp add: half_image_def plain_header_def)
  then have l: "7 \<le> length (raw_data ?rom)" by simp
  have b: "raw_data ?rom ! 4 = 2" "raw_data ?rom ! 5 = 1" "raw_data ?rom ! 6 = 0"
    by (simp_all add: half_image_def plain_header_def)
  have h: "index_at (header ?rom) 4 = Inr 2" "index_at (header ?rom) 5 = Inr 1"
    using l b by (simp_all add: header_byte_present)
  have d: "drop 16 half_image = replicate 20000 0"
    by (simp add: half_image_def plain_header_def)
  have t: "trainer_rom ?rom = Inr []"
    unfolding trainer_rom_eq[OF l] b by (simp add: py_slice_nonneg)
  have p: "prg_rom ?rom = Inr (replicate 20000 0)"
    unfolding prg_rom_eq[OF l] b using n by (simp add: py_slice_nonneg d)
  have ch: "chr_rom ?rom = Inr []"
    unfolding chr_rom_eq[OF l] b using n by (simp add: py_slice_nonneg)
  from c h t p ch show ?thesis by simp
qed

text \<open>With the trainer bit set the trainer is the range from 16 to 528 and the
  PRG-ROM starts at 528; the view itself holds what the file has of that range.\<close>

lemma trainer_boundaries:
  assumes "index_at (header rom) 6 = Inr flags6" and "bit flags6 2"
  shows "trainer_rom_start rom = 16" and "trainer_rom_stop rom = Inr 528"
    and "prg_rom_start rom = Inr 528"
  using assms by (simp_all add: trainer_rom_start_def prg_rom_start_def trainer_rom_stop_eq)

lemma length_trainer_rom:
  assumes "7 \<le> length (raw_data rom)"
  shows "\<exists>t. trainer_rom rom = Inr t
           \<and> length t = (if bit (raw_data rom ! 6) 2
                          then min 512 (length (raw_data rom) - 16) else 0)"
  by (auto simp add: trainer_rom_eq[OF assms] length_py_slice)

text \<open>
  Claim C6. The header with the trainer bit set, followed by 84 bytes, constructs and
  each of its regions is read without an exception; \<open>has_trainer\<close> is true, but the
  trainer view holds the 84 bytes present, not 512.
\<close>

theorem truncated_trainer_wrong_length:
  "ROM_init (one_file ''t.nes'' truncated_trainer_image) (Str ''t.nes'')
     = Inr \<lparr>raw_data = truncated_trainer_image\<rparr>
   \<and> has_trainer \<lparr>raw_data = truncated_trainer_image\<rparr> = Inr True
   \<and> trainer_rom \<lparr>raw_data = truncated_trainer_image\<rparr> = Inr (replicate 84 0)
   \<and> prg_rom \<lparr>raw_data = truncated_trainer_image\<rparr> = Inr []
   \<and> chr_rom \<lparr>raw_data = truncated_trainer_image\<rparr> = Inr []
   \<and> length (replicate 84 (0 :: uint8)) \<noteq> 512"
proof -
  let ?rom = "\<lparr>raw_data = truncated_trainer_image\<rparr>"
  have c: "ROM_init (one_file ''t.nes'' truncated_trainer_image) (Str ''t.nes'') = Inr ?rom"
    by (simp add: ROM_init_Str one_file_def truncated_trainer_image_def trainer_header_def)
  have n: "length (raw_data ?rom) = 100"
    by (simp add: truncated_trainer_image_def trainer_header_def)
  then have l: "7 \<le> length (raw_data ?rom)" by simp
  have b: "raw_data ?rom ! 4 = 2" "raw_data ?rom ! 5 = 1" "raw_data ?rom ! 6 = 4"
    by (simp_all add: truncated_trainer_image_def trainer_header_def)
  have d: "drop 16 truncated_trainer_image = replicate 84 0"
    by (simp add: truncated_trainer_image_def trainer_header_def)
  have ht: "has_trainer ?rom = Inr True"
    using l b by (simp add: has_trainer_eq header_byte_present)
  have t: "trainer_rom ?rom = Inr (replicate 84 0)"
    unfolding trainer_rom_eq[OF l] b using n by (simp add: py_slice_nonneg d)
  have p: "prg_rom ?rom = Inr []"
    unfolding prg_rom_eq[OF l] b using n by (simp add: py_slice_nonneg)
  have ch: "chr_rom ?rom = Inr []"
    unfolding chr_rom_eq[OF l] b using n by (simp add: py_slice_nonneg)
  from c ht t p ch show ?thesis by simp
qed

section \<open>Files shorter than a header\<close>

text \<open>A file of twelve bytes that starts with the signature and whose byte at offset 11
  is 1 is rejected: the zero-fill check runs on the reserved bytes that are present.\<close>

theorem short_nonzero_fill_rejected:
  "length short_nonzero_fill < 16
   \<and> take 4 short_nonzero_fill = [0x4E, 0x45, 0x53, 0x1A]
   \<and> ROM_init (one_file ''s.nes'' short_nonzero_fill) (Str ''s.nes'')
       = Inl (ValueError ''ROM header zero fill bytes are not zero.'')"
  by (simp add: ROM_init_Str one_file_def short_nonzero_fill_def)

text \<open>
  Claim C10, amended. A file shorter than 16 bytes that starts with the signature and
  whose bytes from offset 11 on (none, when it has at most 11 bytes) sum to zero is
  accepted by the constructor: the header is the whole file, and the zero-fill check
  sums the bytes present from offset 11 on.
\<close>

theorem short_file_constructs:
  assumes "fs path = Some bytes"
    and "length bytes < 16"
    and "take 4 bytes = [0x4E, 0x45, 0x53, 0x1A]"
    and "np_sum (drop 11 bytes) = 0"
  shows "ROM_init fs (Str path) = Inr \<lparr>raw_data = bytes\<rparr>
       \<and> header \<lparr>raw_data = bytes\<rparr> = bytes
       \<and> zero_fill \<lparr>raw_data = bytes\<rparr> = np_sum (drop 11 bytes)"
proof -
  have h: "header \<lparr>raw_data = bytes\<rparr> = bytes"
    using assms(2) by (simp add: header_def)
  have "take 5 (drop 11 bytes) = drop 11 bytes"
    using assms(2) by simp
  then have z: "sum_list (map unat (take 5 (drop 11 bytes))) = 0"
    using assms(4) by (simp add: np_sum_def)
  show ?thesis
    using assms(3) z h by (simp add: ROM_init_Str[of fs path bytes, OF assms(1)] zero_fill_def)
qed

theorem short_file_constructs_witness:
  "one_file ''n.nes'' signature_only ''n.nes'' = Some signature_only
   \<and> length signature_only < 16
   \<and> take 4 signature_only = [0x4E, 0x45, 0x53, 0x1A]
   \<and> np_sum (drop 11 signature_only) = 0
   \<and> ROM_init (one_file ''n.nes'' signature_only) (Str ''n.nes'')
       = Inr \<lparr>raw_data = signature_only\<rparr>
   \<and> header \<lparr>raw_data = signature_only\<rparr> = signature_only"
proof -
  have f: "one_file ''n.nes'' signature_only ''n.nes'' = Some signature_only"
    by (simp add: one_file_def)
  have n: "length signature_only < 16" by (simp add: signature_only_def)
  have m: "take 4 signature_only = [0x4E, 0x45, 0x53, 0x1A]" by (simp add: signature_only_def)
  have z: "np_sum (drop 11 signature_only) = 0" by (simp add: signature_only_def np_sum_def)
  from short_file_constructs[of "one_file ''n.nes'' signature_only" "''n.nes''" signature_only, OF f n m z]
    f n m z show ?thesis by simp
qed

lemma short_file_without_fill:
  assumes "fs path = Some bytes" and "length bytes \<le> 11"
    and "take 4 bytes = [0x4E, 0x45, 0x53, 0x1A]"
  shows "ROM_init fs (Str path) = Inr \<lparr>raw_data = bytes\<rparr>"
  using assms by (simp add: ROM_init_Str)

end
